theory Spec2Isabelle
  imports Main "HOL-Library.Char_ord" "HOL-Library.List_Lexorder" "HOL-Library.Product_Lexorder"
begin

section \<open>Offline mutation queue and API client of Mission Control\<close>

text \<open>
  The development embeds two source files: the offline mutation queue
  (class \<open>OfflineQueue\<close>: \<open>enqueue\<close>, \<open>getAll\<close>, \<open>remove\<close>, \<open>flush\<close>, \<open>_emit\<close>) and the
  API client (class \<open>ApiClient\<close>: \<open>isRemote\<close>, \<open>_fetch\<close>, \<open>_flush\<close>).

  The JavaScript is asynchronous and effectful. The model passes an explicit world
  state, and every effect of the code (an IndexedDB request, a network request, a timer
  wait, a listener notification) is appended to a trace, so that claims about the order
  and the number of effects can be stated. What the environment answers (the network,
  the clock, whether an IndexedDB request errors, the bearer token) is a parameter.

  What the model takes for granted: a listener registered with \<open>on\<close> only observes (a
  call of \<open>_emit\<close> is an entry of the trace); \<open>new URL(path, baseUrl)\<close> does not throw
  when a base URL is configured; \<open>retries\<close> is a natural number, on which
  \<open>Math.pow(2, retries - 1)\<close> is exact below \<open>MAX_RETRIES\<close>; console output is left
  out.
\<close>

subsection \<open>Data\<close>

type_synonym json = string

text \<open>
  A mutation object. \<open>body\<close> and \<open>enqueuedAt\<close> may be absent (\<open>undefined\<close>) on the
  JavaScript object, which is \<open>None\<close> here; a timestamp (an ISO string in the source,
  compared as a string) is a natural number. \<open>retries\<close> is always overwritten by
  \<open>enqueue\<close>, so an object that carries none may carry any value here. The field
  \<open>method\<close> of the source is \<open>http_method\<close>, since \<open>method\<close> is a keyword.
\<close>

record mutation =
  idempotencyKey :: string
  http_method :: string
  path :: string
  body :: "json option"
  enqueuedAt :: "nat option"
  retries :: nat

text \<open>The request handed to the browser's \<open>fetch\<close>.\<close>

record request =
  req_method :: string
  req_base :: string
  req_path :: string
  req_query :: "(string \<times> string) list"
  req_headers :: "(string \<times> string) list"
  req_body :: "json option"

text \<open>
  What the browser's \<open>fetch\<close> does with a request: the promise rejects (\<open>NetError\<close>), or
  it resolves with a status and a body, which is not of a JSON content type, is JSON
  that parses, or is JSON on which \<open>res.json()\<close> throws.
\<close>

datatype payload = NoJson | Json json | BadJson

datatype net_outcome = NetError | Response nat payload

text \<open>The object \<open>_fetch\<close> returns; a flag the object literal leaves out is \<open>False\<close>.\<close>

record fetch_result =
  ok :: bool
  status :: nat
  data :: "json option"
  localOnly :: bool
  offline :: bool

text \<open>The third argument of \<open>_fetch\<close>: \<open>{ body, params, idempotencyKey }\<close>.\<close>

record fetch_opts =
  opt_body :: "json option"
  opt_params :: "(string \<times> string option) list"
  opt_idempotencyKey :: "string option"

datatype error = StorageFailure

datatype action =
    DbGetAll
  | DbPut mutation
  | DbDelete string
  | Emit string mutation
  | Sleep nat
  | NetRequest request

text \<open>
  The environment. \<open>net k r\<close> is the outcome of request \<open>r\<close> when \<open>k\<close> requests have
  been made before it; \<open>clock n\<close> is what \<open>new Date()\<close> reads when \<open>n\<close> effects have
  happened; \<open>db_fails k\<close> says whether the IndexedDB request made after \<open>k\<close> earlier ones
  errors (opening the database counts with the request that needs it); \<open>getToken\<close> is
  what \<open>getToken()\<close> of the authentication module returns.
\<close>

record env =
  net :: "nat \<Rightarrow> request \<Rightarrow> net_outcome"
  clock :: "nat \<Rightarrow> nat"
  db_fails :: "nat \<Rightarrow> bool"
  getToken :: "string option"

text \<open>
  The world: the object store \<open>mutations\<close> (keyed by \<open>idempotencyKey\<close>), the
  \<open>flushing\<close> flag of the queue, the effects so far, and how many network and IndexedDB
  requests have been made.
\<close>

record world =
  ledger :: "mutation list"
  flushing :: bool
  trace :: "action list"
  net_calls :: nat
  db_reqs :: nat

record client =
  baseUrl :: string
  online :: bool

subsection \<open>The object store\<close>

definition MAX_RETRIES :: nat where
  "MAX_RETRIES = 5"

definition BASE_DELAY_MS :: nat where
  "BASE_DELAY_MS = 1000"

text \<open>\<open>store.put(record)\<close>: a record with the same key is replaced.\<close>

definition db_put :: "mutation \<Rightarrow> mutation list \<Rightarrow> mutation list" where
  "db_put r s = r # filter (\<lambda>x. idempotencyKey x \<noteq> idempotencyKey r) s"

text \<open>\<open>store.delete(key)\<close>: nothing happens when the key is absent.\<close>

definition db_delete :: "string \<Rightarrow> mutation list \<Rightarrow> mutation list" where
  "db_delete k s = filter (\<lambda>x. idempotencyKey x \<noteq> k) s"

text \<open>
  \<open>store.index('enqueuedAt').getAll()\<close>: the records that have the indexed field, in
  ascending order of the field, records with equal fields in ascending order of the
  primary key.
\<close>

definition index_key :: "mutation \<Rightarrow> nat \<times> string" where
  "index_key m = (case enqueuedAt m of Some t \<Rightarrow> t | None \<Rightarrow> 0, idempotencyKey m)"

definition db_index_getAll :: "mutation list \<Rightarrow> mutation list" where
  "db_index_getAll s = sort_key index_key (filter (\<lambda>m. enqueuedAt m \<noteq> None) s)"

subsection \<open>OfflineQueue\<close>

definition emit :: "string \<Rightarrow> mutation \<Rightarrow> world \<Rightarrow> world" where
  "emit event d w = w\<lparr>trace := trace w @ [Emit event d]\<rparr>"

definition sleep :: "nat \<Rightarrow> world \<Rightarrow> world" where
  "sleep ms w = w\<lparr>trace := trace w @ [Sleep ms]\<rparr>"

definition db_request :: "world \<Rightarrow> world" where
  "db_request w = w\<lparr>db_reqs := Suc (db_reqs w)\<rparr>"

definition enqueue :: "env \<Rightarrow> mutation \<Rightarrow> world \<Rightarrow> (error + mutation) \<times> world" where
  "enqueue e m w =
     (if db_fails e (db_reqs w) then (Inl StorageFailure, db_request w)
      else
        let record = m\<lparr>retries := 0,
                       enqueuedAt := Some (case enqueuedAt m of
                                             Some t \<Rightarrow> t
                                           | None \<Rightarrow> clock e (length (trace w)))\<rparr>;
            w1 = (db_request w)\<lparr>ledger := db_put record (ledger w),
                                 trace := trace w @ [DbPut record]\<rparr>
        in (Inr record, emit ''enqueued'' record w1))"

definition getAll :: "env \<Rightarrow> world \<Rightarrow> (error + mutation list) \<times> world" where
  "getAll e w =
     (if db_fails e (db_reqs w) then (Inl StorageFailure, db_request w)
      else (Inr (db_index_getAll (ledger w)),
            (db_request w)\<lparr>trace := trace w @ [DbGetAll]\<rparr>))"

definition remove :: "env \<Rightarrow> string \<Rightarrow> world \<Rightarrow> (error + unit) \<times> world" where
  "remove e k w =
     (if db_fails e (db_reqs w) then (Inl StorageFailure, db_request w)
      else (Inr (),
            (db_request w)\<lparr>ledger := db_delete k (ledger w),
                            trace := trace w @ [DbDelete k]\<rparr>))"

subsection \<open>ApiClient\<close>

definition isRemote :: "client \<Rightarrow> bool" where
  "isRemote c = (baseUrl c \<noteq> [])"

text \<open>A string that may be absent is truthy when it is present and not empty.\<close>

fun truthy :: "string option \<Rightarrow> bool" where
  "truthy None = False"
| "truthy (Some s) = (s \<noteq> [])"

text \<open>\<open>url.searchParams.set(k, v)\<close> for every parameter that is neither undefined nor null.\<close>

fun set_param :: "string \<Rightarrow> string \<Rightarrow> (string \<times> string) list \<Rightarrow> (string \<times> string) list" where
  "set_param k v [] = [(k, v)]"
| "set_param k v ((k', v') # q) =
     (if k' = k then (k, v) # filter (\<lambda>p. fst p \<noteq> k) q else (k', v') # set_param k v q)"

fun search_params :: "(string \<times> string option) list \<Rightarrow> (string \<times> string) list \<Rightarrow> (string \<times> string) list" where
  "search_params [] q = q"
| "search_params ((k, None) # ps) q = search_params ps q"
| "search_params ((k, Some v) # ps) q = search_params ps (set_param k v q)"

definition build_request :: "env \<Rightarrow> client \<Rightarrow> string \<Rightarrow> string \<Rightarrow> fetch_opts \<Rightarrow> request" where
  "build_request e c meth p opts =
     \<lparr>req_method = meth,
      req_base = baseUrl c,
      req_path = p,
      req_query = search_params (opt_params opts) [],
      req_headers =
        [(''Content-Type'', ''application/json'')]
        @ (if truthy (getToken e) then [(''Authorization'', ''Bearer '' @ the (getToken e))] else [])
        @ (if truthy (opt_idempotencyKey opts)
           then [(''Idempotency-Key'', the (opt_idempotencyKey opts))] else []),
      req_body = (if opt_body opts \<noteq> None \<and> meth \<noteq> ''GET'' then opt_body opts else None)\<rparr>"

text \<open>
  The \<open>catch\<close> branch of \<open>_fetch\<close>. The call of \<open>enqueue\<close> is not awaited: a storage
  failure there does not reach the caller of \<open>_fetch\<close>. The model lets the write land
  before \<open>_fetch\<close> returns.
\<close>

definition fetch_failed :: "env \<Rightarrow> string \<Rightarrow> string \<Rightarrow> fetch_opts \<Rightarrow> world \<Rightarrow> fetch_result \<times> world" where
  "fetch_failed e meth p opts w =
     (let w1 = (if meth \<noteq> ''GET'' \<and> truthy (opt_idempotencyKey opts)
                then snd (enqueue e
                       \<lparr>idempotencyKey = the (opt_idempotencyKey opts), http_method = meth, path = p,
                        body = opt_body opts, enqueuedAt = Some (clock e (length (trace w))),
                        retries = 0\<rparr> w)
                else w)
      in (\<lparr>ok = False, status = 0, data = None, localOnly = False, offline = True\<rparr>, w1))"

definition api_fetch :: "env \<Rightarrow> client \<Rightarrow> string \<Rightarrow> string \<Rightarrow> fetch_opts \<Rightarrow> world \<Rightarrow> fetch_result \<times> world" where
  "api_fetch e c meth p opts w =
     (if \<not> isRemote c
      then (\<lparr>ok = False, status = 0, data = None, localOnly = True, offline = False\<rparr>, w)
      else
        let req = build_request e c meth p opts;
            w1 = w\<lparr>trace := trace w @ [NetRequest req], net_calls := Suc (net_calls w)\<rparr>
        in case net e (net_calls w) req of
             NetError \<Rightarrow> fetch_failed e meth p opts w1
           | Response st BadJson \<Rightarrow> fetch_failed e meth p opts w1
           | Response st NoJson \<Rightarrow>
               (\<lparr>ok = (200 \<le> st \<and> st \<le> 299), status = st, data = None,
                 localOnly = False, offline = False\<rparr>, w1)
           | Response st (Json d) \<Rightarrow>
               (\<lparr>ok = (200 \<le> st \<and> st \<le> 299), status = st, data = Some d,
                 localOnly = False, offline = False\<rparr>, w1))"

subsection \<open>The flush engine\<close>

datatype flow = Continue | Break | Throw error

text \<open>The body of the \<open>for\<close> loop of \<open>flush\<close>, for one mutation of the snapshot.\<close>

definition remove_then_emit :: "env \<Rightarrow> string \<Rightarrow> mutation \<Rightarrow> world \<Rightarrow> flow \<times> world" where
  "remove_then_emit e event m w =
     (case remove e (idempotencyKey m) w of
        (Inl err, w1) \<Rightarrow> (Throw err, w1)
      | (Inr u, w1) \<Rightarrow> (Continue, emit event m w1))"

definition backoff :: "mutation \<Rightarrow> world \<Rightarrow> world" where
  "backoff m w =
     (if retries m > 0 then sleep (BASE_DELAY_MS * 2 ^ (retries m - 1)) w else w)"

definition turn :: "env \<Rightarrow> client \<Rightarrow> mutation \<Rightarrow> world \<Rightarrow> flow \<times> world" where
  "turn e c m w =
     (if retries m \<ge> MAX_RETRIES then remove_then_emit e ''failed'' m w
      else
        case api_fetch e c (http_method m) (path m)
               \<lparr>opt_body = body m, opt_params = [],
                opt_idempotencyKey = Some (idempotencyKey m)\<rparr> (backoff m w) of
          (result, w2) \<Rightarrow>
            if ok result then remove_then_emit e ''flushed'' m w2
            else if offline result then (Break, w2)
            else if status result = 409 then remove_then_emit e ''conflict'' m w2
            else (case enqueue e (m\<lparr>retries := retries m + 1\<rparr>) w2 of
                    (Inl err, w3) \<Rightarrow> (Throw err, w3)
                  | (Inr r, w3) \<Rightarrow> (Continue, w3)))"

fun drain :: "env \<Rightarrow> client \<Rightarrow> mutation list \<Rightarrow> world \<Rightarrow> error option \<times> world" where
  "drain e c [] w = (None, w)"
| "drain e c (m # ms) w =
     (case turn e c m w of
        (Continue, w1) \<Rightarrow> drain e c ms w1
      | (Break, w1) \<Rightarrow> (None, w1)
      | (Throw err, w1) \<Rightarrow> (Some err, w1))"

definition flush :: "env \<Rightarrow> client \<Rightarrow> world \<Rightarrow> error option \<times> world" where
  "flush e c w =
     (if flushing w then (None, w)
      else
        case getAll e (w\<lparr>flushing := True\<rparr>) of
          (Inl err, w1) \<Rightarrow> (Some err, w1\<lparr>flushing := False\<rparr>)
        | (Inr mutations, w1) \<Rightarrow>
            if mutations = [] then (None, w1\<lparr>flushing := False\<rparr>)
            else (case drain e c mutations w1 of
                    (r, w2) \<Rightarrow> (r, w2\<lparr>flushing := False\<rparr>)))"

text \<open>\<open>ApiClient._flush\<close>, run when the browser reports that it is online again.\<close>

definition api_flush :: "env \<Rightarrow> client \<Rightarrow> world \<Rightarrow> error option \<times> world" where
  "api_flush e c w = (if \<not> isRemote c \<or> \<not> online c then (None, w) else flush e c w)"

subsection \<open>A flush among other tasks\<close>

text \<open>
  JavaScript runs one task at a time, and a task gives way only where it awaits. While
  \<open>flush\<close> awaits an operation, other tasks run: before the operation takes effect and
  after it. What they do to the world is the function \<open>h\<close>. The definitions below are
  \<open>flush\<close> and its parts once more, with \<open>h\<close> at every \<open>await\<close> of the source.
\<close>

definition await :: "(world \<Rightarrow> world) \<Rightarrow> (world \<Rightarrow> 'a \<times> world) \<Rightarrow> world \<Rightarrow> 'a \<times> world" where
  "await h op w = (case op (h w) of (r, w1) \<Rightarrow> (r, h w1))"

definition remove_then_emit_among ::
  "(world \<Rightarrow> world) \<Rightarrow> env \<Rightarrow> string \<Rightarrow> mutation \<Rightarrow> world \<Rightarrow> flow \<times> world" where
  "remove_then_emit_among h e event m w =
     (case await h (remove e (idempotencyKey m)) w of
        (Inl err, w1) \<Rightarrow> (Throw err, w1)
      | (Inr u, w1) \<Rightarrow> (Continue, emit event m w1))"

definition backoff_among :: "(world \<Rightarrow> world) \<Rightarrow> mutation \<Rightarrow> world \<Rightarrow> world" where
  "backoff_among h m w =
     (if retries m > 0
      then snd (await h (\<lambda>v. ((), sleep (BASE_DELAY_MS * 2 ^ (retries m - 1)) v)) w)
      else w)"

definition turn_among :: "(world \<Rightarrow> world) \<Rightarrow> env \<Rightarrow> client \<Rightarrow> mutation \<Rightarrow> world \<Rightarrow> flow \<times> world" where
  "turn_among h e c m w =
     (if retries m \<ge> MAX_RETRIES then remove_then_emit_among h e ''failed'' m w
      else
        case await h (api_fetch e c (http_method m) (path m)
               \<lparr>opt_body = body m, opt_params = [],
                opt_idempotencyKey = Some (idempotencyKey m)\<rparr>) (backoff_among h m w) of
          (result, w2) \<Rightarrow>
            if ok result then remove_then_emit_among h e ''flushed'' m w2
            else if offline result then (Break, w2)
            else if status result = 409 then remove_then_emit_among h e ''conflict'' m w2
            else (case await h (enqueue e (m\<lparr>retries := retries m + 1\<rparr>)) w2 of
                    (Inl err, w3) \<Rightarrow> (Throw err, w3)
                  | (Inr r, w3) \<Rightarrow> (Continue, w3)))"

fun drain_among ::
  "(world \<Rightarrow> world) \<Rightarrow> env \<Rightarrow> client \<Rightarrow> mutation list \<Rightarrow> world \<Rightarrow> error option \<times> world" where
  "drain_among h e c [] w = (None, w)"
| "drain_among h e c (m # ms) w =
     (case turn_among h e c m w of
        (Continue, w1) \<Rightarrow> drain_among h e c ms w1
      | (Break, w1) \<Rightarrow> (None, w1)
      | (Throw err, w1) \<Rightarrow> (Some err, w1))"

definition flush_among :: "(world \<Rightarrow> world) \<Rightarrow> env \<Rightarrow> client \<Rightarrow> world \<Rightarrow> error option \<times> world" where
  "flush_among h e c w =
     (if flushing w then (None, w)
      else
        case await h (getAll e) (w\<lparr>flushing := True\<rparr>) of
          (Inl err, w1) \<Rightarrow> (Some err, w1\<lparr>flushing := False\<rparr>)
        | (Inr mutations, w1) \<Rightarrow>
            if mutations = [] then (None, w1\<lparr>flushing := False\<rparr>)
            else (case drain_among h e c mutations w1 of
                    (r, w2) \<Rightarrow> (r, w2\<lparr>flushing := False\<rparr>)))"

subsection \<open>Observations on traces and example inputs\<close>

text \<open>The network requests of a trace, in the order in which they were made.\<close>

fun net_requests :: "action list \<Rightarrow> request list" where
  "net_requests [] = []"
| "net_requests (NetRequest r # t) = r # net_requests t"
| "net_requests (a # t) = net_requests t"

text \<open>The timer waits of a trace.\<close>

fun sleeps :: "action list \<Rightarrow> nat list" where
  "sleeps [] = []"
| "sleeps (Sleep d # t) = d # sleeps t"
| "sleeps (a # t) = sleeps t"

text \<open>The request that \<open>flush\<close> makes \<open>_fetch\<close> send for a mutation.\<close>

definition request_of :: "env \<Rightarrow> client \<Rightarrow> mutation \<Rightarrow> request" where
  "request_of e c m =
     build_request e c (http_method m) (path m)
       \<lparr>opt_body = body m, opt_params = [], opt_idempotencyKey = Some (idempotencyKey m)\<rparr>"

definition req_key :: "request \<Rightarrow> string option" where
  "req_key r = map_of (req_headers r) ''Idempotency-Key''"

definition keys_of :: "mutation list \<Rightarrow> string set" where
  "keys_of s = idempotencyKey ` set s"

text \<open>Several passes of \<open>flush\<close>, one after the other.\<close>

fun flush_passes :: "nat \<Rightarrow> env \<Rightarrow> client \<Rightarrow> world \<Rightarrow> world" where
  "flush_passes 0 e c w = w"
| "flush_passes (Suc n) e c w = flush_passes n e c (snd (flush e c w))"

text \<open>
  Example inputs: a client with and without a backend, a network that answers every
  request with one status, a network that is down, a mutation and a world that holds a
  given ledger.
\<close>

definition ex_client :: client where
  "ex_client = \<lparr>baseUrl = ''https://mc.example'', online = True\<rparr>"

definition ex_local :: client where
  "ex_local = \<lparr>baseUrl = [], online = True\<rparr>"

definition ex_env :: "nat \<Rightarrow> env" where
  "ex_env st = \<lparr>net = (\<lambda>k r. Response st NoJson), clock = (\<lambda>n. 1000 + n),
                db_fails = (\<lambda>k. False), getToken = Some ''tok''\<rparr>"

definition ex_env_down :: env where
  "ex_env_down = \<lparr>net = (\<lambda>k r. NetError), clock = (\<lambda>n. 1000 + n),
                  db_fails = (\<lambda>k. False), getToken = Some ''tok''\<rparr>"

definition ex_mutation :: "string \<Rightarrow> nat \<Rightarrow> nat \<Rightarrow> mutation" where
  "ex_mutation k t r =
     \<lparr>idempotencyKey = k, http_method = ''POST'', path = ''/api/v1/tasks'',
      body = Some ''{title:x}'', enqueuedAt = Some t, retries = r\<rparr>"

definition ex_opts :: fetch_opts where
  "ex_opts = \<lparr>opt_body = Some ''{title:x}'', opt_params = [], opt_idempotencyKey = Some ''k1''\<rparr>"

definition ex_world :: "mutation list \<Rightarrow> world" where
  "ex_world s = \<lparr>ledger = s, flushing = False, trace = [], net_calls = 0, db_reqs = 0\<rparr>"

text \<open>The world after \<open>_fetch\<close> has handed its request to the network.\<close>

definition sent :: "env \<Rightarrow> client \<Rightarrow> string \<Rightarrow> string \<Rightarrow> fetch_opts \<Rightarrow> world \<Rightarrow> world" where
  "sent e c meth p opts w =
     w\<lparr>trace := trace w @ [NetRequest (build_request e c meth p opts)],
       net_calls := Suc (net_calls w)\<rparr>"


text \<open>
  The worlds that the code can bring about from an empty object store: every operation of
  the queue and of the client may run, with any arguments and any environment, and the
  steps inside \<open>flush\<close> (the flag, a turn) may stop anywhere.
\<close>

inductive reachable :: "world \<Rightarrow> bool" where
  initial: "reachable \<lparr>ledger = [], flushing = False, trace = t, net_calls = n, db_reqs = d\<rparr>"
| by_enqueue: "reachable w \<Longrightarrow> reachable (snd (enqueue e m w))"
| by_remove: "reachable w \<Longrightarrow> reachable (snd (remove e k w))"
| by_getAll: "reachable w \<Longrightarrow> reachable (snd (getAll e w))"
| by_fetch: "reachable w \<Longrightarrow> reachable (snd (api_fetch e c meth p opts w))"
| by_turn: "reachable w \<Longrightarrow> reachable (snd (turn e c m w))"
| by_flag: "reachable w \<Longrightarrow> reachable (w\<lparr>flushing := b\<rparr>)"
| by_flush: "reachable w \<Longrightarrow> reachable (snd (flush e c w))"
| by_api_flush: "reachable w \<Longrightarrow> reachable (snd (api_flush e c w))"

text \<open>Every record of a store has \<open>retries = 0\<close>.\<close>

definition zeroed :: "mutation list \<Rightarrow> bool" where
  "zeroed s = (\<forall>m \<in> set s. retries m = 0)"



text \<open>
  The \<open>try\<close> block of \<open>_fetch\<close> runs to its \<open>return\<close> when the network answers and
  the body, if it is JSON, parses; otherwise the \<open>catch\<close> block runs.
\<close>

fun answered :: "net_outcome \<Rightarrow> bool" where
  "answered NetError = False"
| "answered (Response st BadJson) = False"
| "answered (Response st NoJson) = True"
| "answered (Response st (Json d)) = True"


text \<open>
  More example environments: one whose every answer is JSON that does not parse, and one
  whose network refuses the first request and answers the later ones with status 200.
\<close>

definition ex_env_bad :: "nat \<Rightarrow> env" where
  "ex_env_bad st = \<lparr>net = (\<lambda>k r. Response st BadJson), clock = (\<lambda>n. 1000 + n),
                    db_fails = (\<lambda>k. False), getToken = Some ''tok''\<rparr>"

definition ex_env_recovering :: env where
  "ex_env_recovering =
     \<lparr>net = (\<lambda>k r. if k = 0 then NetError else Response 200 NoJson), clock = (\<lambda>n. 1000 + n),
      db_fails = (\<lambda>k. False), getToken = Some ''tok''\<rparr>"

text \<open>
  Nothing disturbs the turns of a list of mutations: no IndexedDB request errors, and
  the network answers the request of each of them, whenever it is made.
\<close>

definition undisturbed :: "env \<Rightarrow> client \<Rightarrow> mutation list \<Rightarrow> bool" where
  "undisturbed e c ms =
     ((\<forall>k. \<not> db_fails e k) \<and> (\<forall>m \<in> set ms. \<forall>k. answered (net e k (request_of e c m))))"

text \<open>The number of mutations of the snapshot whose turn the loop of a pass runs.\<close>

fun turns_run :: "env \<Rightarrow> client \<Rightarrow> mutation list \<Rightarrow> world \<Rightarrow> nat" where
  "turns_run e c [] w = 0"
| "turns_run e c (m # ms) w =
     (case turn e c m w of
        (Continue, w1) \<Rightarrow> Suc (turns_run e c ms w1)
      | (Break, w1) \<Rightarrow> 1
      | (Throw err, w1) \<Rightarrow> 1)"

text \<open>
  Every record that a store holds under the key of \<open>a\<close> is \<open>a\<close>, or \<open>a\<close> with
  \<open>enqueuedAt\<close> and \<open>retries\<close> written anew.
\<close>

definition held :: "mutation \<Rightarrow> mutation list \<Rightarrow> bool" where
  "held a s =
     (\<forall>x \<in> set s. idempotencyKey x = idempotencyKey a \<longrightarrow>
        x = a \<or> (\<exists>t. x = a\<lparr>enqueuedAt := Some t, retries := 0\<rparr>))"

section \<open>Properties\<close>

subsection \<open>Evaluation rules\<close>

lemmas queue_defs =
  enqueue_def getAll_def remove_def emit_def sleep_def db_request_def db_put_def
  db_delete_def db_index_getAll_def index_key_def

lemmas client_defs =
  api_fetch_def fetch_failed_def build_request_def isRemote_def request_of_def req_key_def

lemmas flush_defs =
  flush_def turn_def backoff_def remove_then_emit_def MAX_RETRIES_def BASE_DELAY_MS_def

lemmas ex_defs =
  ex_client_def ex_local_def ex_env_def ex_env_down_def ex_mutation_def ex_opts_def
  ex_world_def keys_of_def ex_env_bad_def ex_env_recovering_def

subsection \<open>The primitive operations\<close>

lemma net_requests_append: "net_requests (xs @ ys) = net_requests xs @ net_requests ys"
  by (induction xs rule: net_requests.induct) simp_all

lemma sleeps_append: "sleeps (xs @ ys) = sleeps xs @ sleeps ys"
  by (induction xs rule: sleeps.induct) simp_all

lemma fetch_local:
  "\<not> isRemote c \<Longrightarrow> api_fetch e c meth p opts w =
     (\<lparr>ok = False, status = 0, data = None, localOnly = True, offline = False\<rparr>, w)"
  by (simp add: api_fetch_def)

lemma fetch_response:
  assumes "isRemote c" "net e (net_calls w) (build_request e c meth p opts) = Response st pl"
    "pl \<noteq> BadJson"
  shows "api_fetch e c meth p opts w =
     (\<lparr>ok = (200 \<le> st \<and> st \<le> 299), status = st,
       data = (case pl of Json d \<Rightarrow> Some d | _ \<Rightarrow> None),
       localOnly = False, offline = False\<rparr>, sent e c meth p opts w)"
  using assms by (cases pl) (simp_all add: api_fetch_def sent_def Let_def)

lemma fetch_error:
  assumes "isRemote c"
    "net e (net_calls w) (build_request e c meth p opts) = NetError
     \<or> (\<exists>st. net e (net_calls w) (build_request e c meth p opts) = Response st BadJson)"
  shows "api_fetch e c meth p opts w = fetch_failed e meth p opts (sent e c meth p opts w)"
  using assms by (auto simp add: api_fetch_def sent_def Let_def)

lemma enqueue_ok:
  "\<not> db_fails e (db_reqs w) \<Longrightarrow>
   enqueue e m w =
     (let r = m\<lparr>retries := 0,
                 enqueuedAt := Some (case enqueuedAt m of Some t \<Rightarrow> t
                                     | None \<Rightarrow> clock e (length (trace w)))\<rparr>
      in (Inr r, w\<lparr>db_reqs := Suc (db_reqs w), ledger := db_put r (ledger w),
                   trace := trace w @ [DbPut r, Emit ''enqueued'' r]\<rparr>))"
  by (simp add: enqueue_def Let_def emit_def db_request_def)

lemma enqueue_fails:
  "db_fails e (db_reqs w) \<Longrightarrow> enqueue e m w = (Inl StorageFailure, w\<lparr>db_reqs := Suc (db_reqs w)\<rparr>)"
  by (simp add: enqueue_def db_request_def)

lemma remove_ok:
  "\<not> db_fails e (db_reqs w) \<Longrightarrow>
   remove e k w = (Inr (), w\<lparr>db_reqs := Suc (db_reqs w), ledger := db_delete k (ledger w),
                            trace := trace w @ [DbDelete k]\<rparr>)"
  by (simp add: remove_def db_request_def)

lemma remove_fails:
  "db_fails e (db_reqs w) \<Longrightarrow> remove e k w = (Inl StorageFailure, w\<lparr>db_reqs := Suc (db_reqs w)\<rparr>)"
  by (simp add: remove_def db_request_def)

lemma remove_then_emit_ok:
  "\<not> db_fails e (db_reqs w) \<Longrightarrow>
   remove_then_emit e ev m w =
     (Continue, w\<lparr>db_reqs := Suc (db_reqs w),
                  ledger := db_delete (idempotencyKey m) (ledger w),
                  trace := trace w @ [DbDelete (idempotencyKey m), Emit ev m]\<rparr>)"
  by (simp add: remove_then_emit_def remove_ok emit_def)

lemma remove_then_emit_fails:
  "db_fails e (db_reqs w) \<Longrightarrow>
   remove_then_emit e ev m w = (Throw StorageFailure, w\<lparr>db_reqs := Suc (db_reqs w)\<rparr>)"
  by (simp add: remove_then_emit_def remove_fails)

lemma keys_of_db_delete: "keys_of (db_delete k s) = keys_of s - {k}"
  by (auto simp: keys_of_def db_delete_def)


subsection \<open>Local-only mode and an unreachable network\<close>

text \<open>
  Claim C9. Without a configured backend, \<open>_fetch\<close> returns the result flagged
  \<open>localOnly\<close> and leaves the world as it was: no network request, nothing enqueued.
  With a backend, when the network request of a write (a method other than GET, with an
  idempotency key) fails and the object store accepts the write, \<open>_fetch\<close> has made
  the one request, returns the result flagged \<open>offline\<close> and not \<open>localOnly\<close>, and
  has put the mutation into the ledger.
\<close>

theorem fetch_local_only_versus_offline:
  "(\<not> isRemote c \<longrightarrow>
      api_fetch e c meth p opts w =
        (\<lparr>ok = False, status = 0, data = None, localOnly = True, offline = False\<rparr>, w))
   \<and> (isRemote c \<and> net e (net_calls w) (build_request e c meth p opts) = NetError
        \<and> meth \<noteq> ''GET'' \<and> truthy (opt_idempotencyKey opts) \<and> \<not> db_fails e (db_reqs w) \<longrightarrow>
      (case api_fetch e c meth p opts w of
         (r, w') \<Rightarrow>
           r = \<lparr>ok = False, status = 0, data = None, localOnly = False, offline = True\<rparr>
           \<and> net_requests (trace w') = net_requests (trace w) @ [build_request e c meth p opts]
           \<and> ledger w' =
               db_put \<lparr>idempotencyKey = the (opt_idempotencyKey opts), http_method = meth, path = p,
                       body = opt_body opts,
                       enqueuedAt = Some (clock e (Suc (length (trace w)))), retries = 0\<rparr>
                 (ledger w)))"
proof (intro conjI impI)
  assume "\<not> isRemote c"
  then show "api_fetch e c meth p opts w =
        (\<lparr>ok = False, status = 0, data = None, localOnly = True, offline = False\<rparr>, w)"
    by (rule fetch_local)
next
  assume h: "isRemote c \<and> net e (net_calls w) (build_request e c meth p opts) = NetError
        \<and> meth \<noteq> ''GET'' \<and> truthy (opt_idempotencyKey opts) \<and> \<not> db_fails e (db_reqs w)"
  then have "api_fetch e c meth p opts w = fetch_failed e meth p opts (sent e c meth p opts w)"
    by (simp add: fetch_error)
  moreover have "\<not> db_fails e (db_reqs (sent e c meth p opts w))"
    using h by (simp add: sent_def)
  ultimately show "case api_fetch e c meth p opts w of
         (r, w') \<Rightarrow>
           r = \<lparr>ok = False, status = 0, data = None, localOnly = False, offline = True\<rparr>
           \<and> net_requests (trace w') = net_requests (trace w) @ [build_request e c meth p opts]
           \<and> ledger w' =
               db_put \<lparr>idempotencyKey = the (opt_idempotencyKey opts), http_method = meth, path = p,
                       body = opt_body opts,
                       enqueuedAt = Some (clock e (Suc (length (trace w)))), retries = 0\<rparr>
                 (ledger w)"
    using h by (simp add: fetch_failed_def enqueue_ok Let_def sent_def net_requests_append)
qed

theorem fetch_local_only_versus_offline_witness:
  "api_fetch ex_env_down ex_local ''POST'' ''/api/v1/tasks'' ex_opts (ex_world []) =
     (\<lparr>ok = False, status = 0, data = None, localOnly = True, offline = False\<rparr>, ex_world [])
   \<and> fst (api_fetch ex_env_down ex_client ''POST'' ''/api/v1/tasks'' ex_opts (ex_world [])) =
       \<lparr>ok = False, status = 0, data = None, localOnly = False, offline = True\<rparr>
   \<and> ledger (snd (api_fetch ex_env_down ex_client ''POST'' ''/api/v1/tasks'' ex_opts (ex_world []))) =
       [\<lparr>idempotencyKey = ''k1'', http_method = ''POST'', path = ''/api/v1/tasks'',
         body = Some ''{title:x}'', enqueuedAt = Some 1001, retries = 0\<rparr>]"
  using fetch_local_only_versus_offline [of ex_local ex_env_down "''POST''" "''/api/v1/tasks''" ex_opts "ex_world []"]
    fetch_local_only_versus_offline [of ex_client ex_env_down "''POST''" "''/api/v1/tasks''" ex_opts "ex_world []"]
  by (simp add: ex_defs isRemote_def db_put_def split: prod.splits)

subsection \<open>A mutation whose retry budget is used up\<close>

text \<open>
  Claim C8, as amended. When the turn of a mutation starts with \<open>retries\<close> at or above
  \<open>MAX_RETRIES\<close> and the object store accepts the deletion, the flush engine deletes
  the mutation from the ledger, then emits the event \<open>failed\<close> with the mutation, makes
  no network request for it and goes on with the next mutation of the snapshot.
\<close>

theorem turn_budget_exhausted:
  assumes "MAX_RETRIES \<le> retries m" "\<not> db_fails e (db_reqs w)"
  shows "turn e c m w =
           (Continue, w\<lparr>db_reqs := Suc (db_reqs w),
                        ledger := db_delete (idempotencyKey m) (ledger w),
                        trace := trace w @ [DbDelete (idempotencyKey m), Emit ''failed'' m]\<rparr>)
         \<and> drain e c (m # ms) w = drain e c ms (snd (turn e c m w))
         \<and> net_requests (trace (snd (turn e c m w))) = net_requests (trace w)
         \<and> idempotencyKey m \<notin> keys_of (ledger (snd (turn e c m w)))"
proof -
  have t: "turn e c m w =
           (Continue, w\<lparr>db_reqs := Suc (db_reqs w),
                        ledger := db_delete (idempotencyKey m) (ledger w),
                        trace := trace w @ [DbDelete (idempotencyKey m), Emit ''failed'' m]\<rparr>)"
    using assms by (simp add: turn_def remove_then_emit_ok)
  then show ?thesis
    by (simp add: net_requests_append keys_of_db_delete)
qed

theorem turn_budget_exhausted_witness:
  "MAX_RETRIES \<le> retries (ex_mutation ''k1'' 1 5)
   \<and> turn (ex_env 500) ex_client (ex_mutation ''k1'' 1 5) (ex_world [ex_mutation ''k1'' 1 5]) =
       (Continue, \<lparr>ledger = [], flushing = False,
                   trace = [DbDelete ''k1'', Emit ''failed'' (ex_mutation ''k1'' 1 5)],
                   net_calls = 0, db_reqs = 1\<rparr>)"
  using turn_budget_exhausted [of "ex_mutation ''k1'' 1 5" "ex_env 500" "ex_world [ex_mutation ''k1'' 1 5]" ex_client "[]"]
  by (simp add: ex_defs MAX_RETRIES_def db_delete_def)

text \<open>
  Claim C8, as stated, names the event \<open>discarded\<close>. On a ledger holding one mutation
  with \<open>retries = 5\<close> the pass emits \<open>failed\<close>, and no event \<open>discarded\<close>.
\<close>

theorem discarded_event_counterexample:
  "MAX_RETRIES \<le> retries (ex_mutation ''k1'' 1 5)
   \<and> trace (snd (flush (ex_env 500) ex_client (ex_world [ex_mutation ''k1'' 1 5]))) =
       [DbGetAll, DbDelete ''k1'', Emit ''failed'' (ex_mutation ''k1'' 1 5)]
   \<and> Emit ''discarded'' (ex_mutation ''k1'' 1 5)
       \<notin> set (trace (snd (flush (ex_env 500) ex_client (ex_world [ex_mutation ''k1'' 1 5]))))"
  by (simp add: ex_defs flush_defs queue_defs)

subsection \<open>The turn of one mutation\<close>

lemma turn_sends:
  "retries m < MAX_RETRIES \<Longrightarrow>
   turn e c m w =
     (case api_fetch e c (http_method m) (path m)
               \<lparr>opt_body = body m, opt_params = [],
                opt_idempotencyKey = Some (idempotencyKey m)\<rparr> (backoff m w) of
          (result, w2) \<Rightarrow>
            if ok result then remove_then_emit e ''flushed'' m w2
            else if offline result then (Break, w2)
            else if status result = 409 then remove_then_emit e ''conflict'' m w2
            else (case enqueue e (m\<lparr>retries := retries m + 1\<rparr>) w2 of
                    (Inl err, w3) \<Rightarrow> (Throw err, w3)
                  | (Inr r, w3) \<Rightarrow> (Continue, w3)))"
  by (simp add: turn_def)

lemma trace_backoff:
  "trace (backoff m w) =
     trace w @ (if 0 < retries m then [Sleep (BASE_DELAY_MS * 2 ^ (retries m - 1))] else [])"
  by (simp add: backoff_def sleep_def)

lemma backoff_fields:
  "ledger (backoff m w) = ledger w" "flushing (backoff m w) = flushing w"
  "net_calls (backoff m w) = net_calls w" "db_reqs (backoff m w) = db_reqs w"
  by (simp_all add: backoff_def sleep_def)

lemma enqueue_trace: "\<exists>t. trace (snd (enqueue e m w)) = trace w @ t \<and> sleeps t = [] \<and> net_requests t = []"
  by (cases "db_fails e (db_reqs w)") (simp_all add: enqueue_ok enqueue_fails Let_def)

lemma remove_then_emit_trace:
  "\<exists>t. trace (snd (remove_then_emit e ev m w)) = trace w @ t \<and> sleeps t = [] \<and> net_requests t = []"
  by (cases "db_fails e (db_reqs w)") (simp_all add: remove_then_emit_ok remove_then_emit_fails)

lemma fetch_failed_trace:
  "\<exists>t. trace (snd (fetch_failed e meth p opts w)) = trace w @ t \<and> sleeps t = [] \<and> net_requests t = []"
  using enqueue_trace by (simp add: fetch_failed_def Let_def)

lemma api_fetch_trace:
  "isRemote c \<Longrightarrow>
   \<exists>t. trace (snd (api_fetch e c meth p opts w)) =
          trace w @ NetRequest (build_request e c meth p opts) # t
        \<and> sleeps t = [] \<and> net_requests t = []"
proof (cases "net e (net_calls w) (build_request e c meth p opts)")
  case NetError
  assume "isRemote c"
  with NetError have "api_fetch e c meth p opts w = fetch_failed e meth p opts (sent e c meth p opts w)"
    by (simp add: fetch_error)
  then show ?thesis
    using fetch_failed_trace [of e meth p opts "sent e c meth p opts w"]
    by (auto simp: sent_def)
next
  case (Response st pl)
  assume r: "isRemote c"
  show ?thesis
  proof (cases "pl = BadJson")
    case True
    with Response r have "api_fetch e c meth p opts w = fetch_failed e meth p opts (sent e c meth p opts w)"
      by (simp add: fetch_error)
    then show ?thesis
      using fetch_failed_trace [of e meth p opts "sent e c meth p opts w"]
      by (auto simp: sent_def)
  next
    case False
    with Response r show ?thesis
      by (simp add: fetch_response sent_def)
  qed
qed

lemma turn_after_fetch_trace:
  "\<exists>t. trace (snd (if ok result then remove_then_emit e ''flushed'' m w2
            else if offline result then (Break, w2)
            else if status result = 409 then remove_then_emit e ''conflict'' m w2
            else (case enqueue e m' w2 of
                    (Inl err, w3) \<Rightarrow> (Throw err, w3)
                  | (Inr r, w3) \<Rightarrow> (Continue, w3)))) = trace w2 @ t \<and> sleeps t = [] \<and> net_requests t = []"
  using remove_then_emit_trace [of e _ m w2] enqueue_trace [of e m' w2]
  by (auto split: prod.splits sum.splits)

subsection \<open>The wait before a send\<close>

text \<open>
  Claim C6. In the turn of a mutation with \<open>retries = r\<close> below \<open>MAX_RETRIES\<close> (at or
  above it no send is attempted), the effects of the turn start with one wait of
  \<open>BASE_DELAY_MS * 2 ^ (r - 1)\<close> milliseconds when \<open>0 < r\<close> and with no wait when
  \<open>r = 0\<close>; with a backend configured the network request of the mutation follows at
  once, and the turn waits nowhere else. \<open>BASE_DELAY_MS\<close> is 1000.
\<close>

theorem backoff_before_send:
  assumes "retries m < MAX_RETRIES"
  shows "\<exists>rest. trace (snd (turn e c m w)) =
            trace w @ (if 0 < retries m then [Sleep (BASE_DELAY_MS * 2 ^ (retries m - 1))] else [])
              @ rest
          \<and> sleeps rest = []
          \<and> (isRemote c \<longrightarrow> (\<exists>rest'. rest = NetRequest (request_of e c m) # rest'))
          \<and> BASE_DELAY_MS = 1000"
proof (cases "isRemote c")
  case True
  obtain result w2 where f: "api_fetch e c (http_method m) (path m)
               \<lparr>opt_body = body m, opt_params = [],
                opt_idempotencyKey = Some (idempotencyKey m)\<rparr> (backoff m w) = (result, w2)"
    by (cases "api_fetch e c (http_method m) (path m)
               \<lparr>opt_body = body m, opt_params = [],
                opt_idempotencyKey = Some (idempotencyKey m)\<rparr> (backoff m w)") 
  from api_fetch_trace [OF True, of e "http_method m" "path m"
      "\<lparr>opt_body = body m, opt_params = [], opt_idempotencyKey = Some (idempotencyKey m)\<rparr>"
      "backoff m w"] f
  obtain t where t: "trace w2 = trace (backoff m w) @ NetRequest (request_of e c m) # t" "sleeps t = []"
    by (auto simp: request_of_def)
  from turn_after_fetch_trace [of result e m w2 "m\<lparr>retries := retries m + 1\<rparr>"]
  obtain t' where t': "trace (snd (turn e c m w)) = trace w2 @ t'" "sleeps t' = []"
    using assms f by (auto simp: turn_sends)
  show ?thesis
    using t t' True by (simp add: trace_backoff sleeps_append BASE_DELAY_MS_def)
next
  case False
  obtain result w2 where f: "api_fetch e c (http_method m) (path m)
               \<lparr>opt_body = body m, opt_params = [],
                opt_idempotencyKey = Some (idempotencyKey m)\<rparr> (backoff m w) = (result, w2)"
    by (cases "api_fetch e c (http_method m) (path m)
               \<lparr>opt_body = body m, opt_params = [],
                opt_idempotencyKey = Some (idempotencyKey m)\<rparr> (backoff m w)") 
  with False have w2: "w2 = backoff m w" by (simp add: fetch_local)
  from turn_after_fetch_trace [of result e m w2 "m\<lparr>retries := retries m + 1\<rparr>"]
  obtain t' where t': "trace (snd (turn e c m w)) = trace w2 @ t'" "sleeps t' = []"
    using assms f by (auto simp: turn_sends)
  show ?thesis
    using w2 t' False by (simp add: trace_backoff BASE_DELAY_MS_def)
qed

theorem backoff_before_send_witness:
  "retries (ex_mutation ''k1'' 1 3) < MAX_RETRIES \<and> isRemote ex_client
   \<and> trace (snd (turn (ex_env 500) ex_client (ex_mutation ''k1'' 1 3) (ex_world [ex_mutation ''k1'' 1 3]))) =
       [Sleep 4000, NetRequest (request_of (ex_env 500) ex_client (ex_mutation ''k1'' 1 3)),
        DbPut (ex_mutation ''k1'' 1 0), Emit ''enqueued'' (ex_mutation ''k1'' 1 0)]"
  using backoff_before_send [of "ex_mutation ''k1'' 1 3" "ex_env 500" ex_client "ex_world [ex_mutation ''k1'' 1 3]"]
  by (simp add: ex_defs flush_defs queue_defs client_defs Let_def)

subsection \<open>What a turn and a pass leave untouched\<close>






lemma sent_fields:
  "ledger (sent e c meth p opts w) = ledger w" "flushing (sent e c meth p opts w) = flushing w"
  "db_reqs (sent e c meth p opts w) = db_reqs w"
  by (simp_all add: sent_def)

lemma api_fetch_cases:
  "api_fetch e c meth p opts w = (\<lparr>ok = False, status = 0, data = None, localOnly = True, offline = False\<rparr>, w)
   \<or> api_fetch e c meth p opts w = fetch_failed e meth p opts (sent e c meth p opts w)
   \<or> (\<exists>r. api_fetch e c meth p opts w = (r, sent e c meth p opts w) \<and> \<not> offline r)"
proof (cases "isRemote c")
  case False
  then show ?thesis by (simp add: fetch_local)
next
  case True
  show ?thesis
  proof (cases "net e (net_calls w) (build_request e c meth p opts)")
    case NetError
    with True show ?thesis by (simp add: fetch_error)
  next
    case (Response st pl)
    with True show ?thesis
      by (cases "pl = BadJson") (simp_all add: fetch_error fetch_response)
  qed
qed







subsection \<open>Conflicts\<close>

text \<open>
  \<open>_fetch\<close> returns status 409 exactly when a backend is configured, the answer has
  status 409 and its body is not JSON or is JSON that parses.
\<close>

lemma fetch_status_409:
  "status (fst (api_fetch e c meth p opts w)) = 409 \<longleftrightarrow>
     isRemote c \<and> (\<exists>pl. net e (net_calls w) (build_request e c meth p opts) = Response 409 pl
                       \<and> pl \<noteq> BadJson)"
proof (cases "isRemote c")
  case False
  then show ?thesis by (simp add: fetch_local)
next
  case True
  show ?thesis
  proof (cases "net e (net_calls w) (build_request e c meth p opts)")
    case NetError
    with True show ?thesis by (simp add: fetch_error fetch_failed_def Let_def)
  next
    case (Response st pl)
    with True show ?thesis
      by (cases "pl = BadJson") (simp_all add: fetch_error fetch_response fetch_failed_def Let_def)
  qed
qed




subsection \<open>The effects of one call of the transport\<close>

lemma fetch_failed_flag: "flushing (snd (fetch_failed e meth p opts w)) = flushing w"
  by (cases "db_fails e (db_reqs w)")
     (simp_all add: fetch_failed_def Let_def enqueue_ok enqueue_fails)







subsection \<open>A mutation that the backend keeps rejecting\<close>

text \<open>
  The counter that \<open>flush\<close> increments is on the object of the snapshot; \<open>enqueue\<close>
  then writes \<open>retries: 0\<close> over it. A pass over a ledger that holds one mutation
  which the backend answers with status 500 therefore leaves the ledger as it was.
\<close>

lemma rejected_pass:
  assumes "ledger w = [ex_mutation k t 0]" "\<not> flushing w"
  shows "snd (flush (ex_env 500) ex_client w) =
           w\<lparr>trace := trace w @ [DbGetAll,
                 NetRequest (request_of (ex_env 500) ex_client (ex_mutation k t 0)),
                 DbPut (ex_mutation k t 0), Emit ''enqueued'' (ex_mutation k t 0)],
             net_calls := Suc (net_calls w), db_reqs := Suc (Suc (db_reqs w))\<rparr>"
  using assms by (simp add: ex_defs flush_defs queue_defs client_defs Let_def)

lemma rejected_passes:
  assumes "ledger w = [ex_mutation k t 0]" "\<not> flushing w"
  shows "ledger (flush_passes n (ex_env 500) ex_client w) = [ex_mutation k t 0]
       \<and> \<not> flushing (flush_passes n (ex_env 500) ex_client w)
       \<and> net_requests (trace (flush_passes n (ex_env 500) ex_client w)) =
           net_requests (trace w) @ replicate n (request_of (ex_env 500) ex_client (ex_mutation k t 0))
       \<and> sleeps (trace (flush_passes n (ex_env 500) ex_client w)) = sleeps (trace w)"
  using assms
proof (induction n arbitrary: w)
  case 0
  then show ?case by simp
next
  case (Suc n)
  let ?w1 = "snd (flush (ex_env 500) ex_client w)"
  have w1: "?w1 = w\<lparr>trace := trace w @ [DbGetAll,
                 NetRequest (request_of (ex_env 500) ex_client (ex_mutation k t 0)),
                 DbPut (ex_mutation k t 0), Emit ''enqueued'' (ex_mutation k t 0)],
             net_calls := Suc (net_calls w), db_reqs := Suc (Suc (db_reqs w))\<rparr>"
    using Suc.prems by (rule rejected_pass)
  have "ledger ?w1 = [ex_mutation k t 0]" "\<not> flushing ?w1"
    using Suc.prems by (simp_all add: w1)
  from Suc.IH [OF this] show ?case
    by (simp add: w1 net_requests_append sleeps_append replicate_app_Cons_same)
qed

text \<open>
  Claim C2 says that the stored \<open>retries\<close> grows by one with each failed replay. Here
  the stored value is 0 after one failed pass and after four.
\<close>

theorem retries_not_incremented:
  "ledger (snd (flush (ex_env 500) ex_client (ex_world [ex_mutation ''k2'' 1 0]))) =
     [ex_mutation ''k2'' 1 0]
   \<and> retries (ex_mutation ''k2'' 1 0) = 0
   \<and> net_requests (trace (snd (flush (ex_env 500) ex_client (ex_world [ex_mutation ''k2'' 1 0])))) =
       [request_of (ex_env 500) ex_client (ex_mutation ''k2'' 1 0)]
   \<and> ledger (flush_passes 4 (ex_env 500) ex_client (ex_world [ex_mutation ''k2'' 1 0])) =
       [ex_mutation ''k2'' 1 0]"
  using rejected_passes [of "ex_world [ex_mutation ''k2'' 1 0]" "''k2''" 1 1]
    rejected_passes [of "ex_world [ex_mutation ''k2'' 1 0]" "''k2''" 1 4]
  by (simp add: ex_world_def ex_mutation_def)

text \<open>
  Claim C1 says that a mutation which is rejected every time is discarded after
  \<open>MAX_RETRIES\<close> failed attempts and never sent a sixth time. Here six passes send the
  request six times, the mutation is still in the ledger, and no pass waited.
\<close>

theorem sixth_attempt:
  "net_requests (trace (flush_passes 6 (ex_env 500) ex_client (ex_world [ex_mutation ''k1'' 1 0]))) =
     replicate 6 (request_of (ex_env 500) ex_client (ex_mutation ''k1'' 1 0))
   \<and> ledger (flush_passes 6 (ex_env 500) ex_client (ex_world [ex_mutation ''k1'' 1 0])) =
       [ex_mutation ''k1'' 1 0]
   \<and> sleeps (trace (flush_passes 6 (ex_env 500) ex_client (ex_world [ex_mutation ''k1'' 1 0]))) = []"
  using rejected_passes [of "ex_world [ex_mutation ''k1'' 1 0]" "''k1''" 1 6]
  by (simp add: ex_world_def)

subsection \<open>The stored retry counter\<close>

lemma zeroed_db_delete: "zeroed s \<Longrightarrow> zeroed (db_delete k s)"
  by (simp add: zeroed_def db_delete_def)

lemma zeroed_db_put: "zeroed s \<Longrightarrow> retries r = 0 \<Longrightarrow> zeroed (db_put r s)"
  by (simp add: zeroed_def db_put_def)

lemma enqueue_zeroed: "zeroed (ledger w) \<Longrightarrow> zeroed (ledger (snd (enqueue e m w)))"
  by (cases "db_fails e (db_reqs w)")
     (simp_all add: enqueue_ok enqueue_fails Let_def zeroed_db_put)

lemma remove_zeroed: "zeroed (ledger w) \<Longrightarrow> zeroed (ledger (snd (remove e k w)))"
  by (cases "db_fails e (db_reqs w)") (simp_all add: remove_ok remove_fails zeroed_db_delete)

lemma remove_then_emit_zeroed:
  "zeroed (ledger w) \<Longrightarrow> zeroed (ledger (snd (remove_then_emit e ev m w)))"
  by (cases "db_fails e (db_reqs w)")
     (simp_all add: remove_then_emit_ok remove_then_emit_fails zeroed_db_delete)

lemma getAll_ledger: "ledger (snd (getAll e w)) = ledger w"
  by (simp add: getAll_def db_request_def)

lemma fetch_failed_zeroed:
  "zeroed (ledger w) \<Longrightarrow> zeroed (ledger (snd (fetch_failed e meth p opts w)))"
  by (simp add: fetch_failed_def Let_def enqueue_zeroed)

lemma api_fetch_zeroed:
  "zeroed (ledger w) \<Longrightarrow> zeroed (ledger (snd (api_fetch e c meth p opts w)))"
  using api_fetch_cases [of e c meth p opts w]
    fetch_failed_zeroed [of "sent e c meth p opts w" e meth p opts]
  by (auto simp: sent_fields)

lemma turn_zeroed:
  assumes "zeroed (ledger w)"
  shows "zeroed (ledger (snd (turn e c m w)))"
proof (cases "retries m < MAX_RETRIES")
  case False
  with assms show ?thesis by (simp add: turn_def remove_then_emit_zeroed)
next
  case True
  obtain result w2 where f: "api_fetch e c (http_method m) (path m)
               \<lparr>opt_body = body m, opt_params = [],
                opt_idempotencyKey = Some (idempotencyKey m)\<rparr> (backoff m w) = (result, w2)"
    by (cases "api_fetch e c (http_method m) (path m)
               \<lparr>opt_body = body m, opt_params = [],
                opt_idempotencyKey = Some (idempotencyKey m)\<rparr> (backoff m w)")
  from api_fetch_zeroed [of "backoff m w" e c "http_method m" "path m" "\<lparr>opt_body = body m, opt_params = [],
                opt_idempotencyKey = Some (idempotencyKey m)\<rparr>"] f assms
  have w2: "zeroed (ledger w2)"
    by (simp add: backoff_fields)
  show ?thesis
    using True f w2 remove_then_emit_zeroed [OF w2, of e _ m]
      enqueue_zeroed [OF w2, of e "m\<lparr>retries := retries m + 1\<rparr>"]
    by (auto simp: turn_sends split: sum.splits prod.splits)
qed

lemma drain_zeroed: "zeroed (ledger w) \<Longrightarrow> zeroed (ledger (snd (drain e c ms w)))"
proof (induction ms arbitrary: w)
  case Nil
  then show ?case by simp
next
  case (Cons m ms)
  obtain f w1 where t: "turn e c m w = (f, w1)" by (cases "turn e c m w")
  with turn_zeroed [OF Cons.prems, of e c m] have z: "zeroed (ledger w1)" by simp
  show ?case
    using t z Cons.IH [OF z] by (cases f) simp_all
qed

lemma flush_world:
  "snd (flush e c w) =
     (if flushing w then w
      else case getAll e (w\<lparr>flushing := True\<rparr>) of
             (Inl err, w1) \<Rightarrow> w1\<lparr>flushing := False\<rparr>
           | (Inr ms, w1) \<Rightarrow> (snd (drain e c ms w1))\<lparr>flushing := False\<rparr>)"
  by (simp add: flush_def split: prod.splits sum.splits)

lemma flush_zeroed:
  assumes "zeroed (ledger w)"
  shows "zeroed (ledger (snd (flush e c w)))"
proof (cases "flushing w")
  case True
  with assms show ?thesis by (simp add: flush_world)
next
  case False
  obtain r w1 where g: "getAll e (w\<lparr>flushing := True\<rparr>) = (r, w1)"
    by (cases "getAll e (w\<lparr>flushing := True\<rparr>)")
  with getAll_ledger [of e "w\<lparr>flushing := True\<rparr>"] assms have z: "zeroed (ledger w1)"
    by simp
  show ?thesis
  proof (cases r)
    case (Inl err)
    with False g z show ?thesis by (simp add: flush_world)
  next
    case (Inr ms)
    with False g drain_zeroed [OF z, of e c ms] show ?thesis by (simp add: flush_world)
  qed
qed

text \<open>
  Claim C10. The record that \<open>enqueue\<close> persists has \<open>retries = 0\<close> whatever the
  input carries, and it is in the ledger afterwards; and in every world that the
  operations of the queue and the client reach from an empty object store, the steps
  inside a flush included, every record of the ledger has \<open>retries = 0\<close>.
\<close>

theorem stored_retries_zero:
  "(\<forall>r w'. enqueue e m w = (Inr r, w') \<longrightarrow> retries r = 0 \<and> r \<in> set (ledger w'))
   \<and> (reachable w \<longrightarrow> (\<forall>x \<in> set (ledger w). retries x = 0))"
proof
  show "\<forall>r w'. enqueue e m w = (Inr r, w') \<longrightarrow> retries r = 0 \<and> r \<in> set (ledger w')"
    by (cases "db_fails e (db_reqs w)") (auto simp: enqueue_ok enqueue_fails Let_def db_put_def)
next
  have "reachable w \<Longrightarrow> zeroed (ledger w)"
  proof (induction rule: reachable.induct)
    case (initial t n d)
    then show ?case by (simp add: zeroed_def)
  next
    case (by_flag w b)
    then show ?case by simp
  next
    case (by_api_flush w e c)
    then show ?case by (simp add: api_flush_def flush_zeroed)
  qed (simp_all add: enqueue_zeroed remove_zeroed getAll_ledger api_fetch_zeroed turn_zeroed
         flush_zeroed)
  then show "reachable w \<longrightarrow> (\<forall>x \<in> set (ledger w). retries x = 0)"
    by (simp add: zeroed_def)
qed

theorem stored_retries_zero_witness:
  "fst (enqueue (ex_env 500) (ex_mutation ''k1'' 1 7) (ex_world [])) = Inr (ex_mutation ''k1'' 1 0)
   \<and> retries (ex_mutation ''k1'' 1 7) = 7
   \<and> reachable (snd (flush (ex_env 500) ex_client
         (snd (enqueue (ex_env 500) (ex_mutation ''k1'' 1 7) (ex_world [])))))
   \<and> ledger (snd (flush (ex_env 500) ex_client
         (snd (enqueue (ex_env 500) (ex_mutation ''k1'' 1 7) (ex_world []))))) =
       [ex_mutation ''k1'' 1 0]
   \<and> map retries (ledger (snd (flush (ex_env 500) ex_client
         (snd (enqueue (ex_env 500) (ex_mutation ''k1'' 1 7) (ex_world [])))))) = [0]"
proof -
  have r: "reachable (snd (flush (ex_env 500) ex_client
         (snd (enqueue (ex_env 500) (ex_mutation ''k1'' 1 7) (ex_world [])))))"
    by (intro reachable.by_flush reachable.by_enqueue) (simp add: ex_world_def reachable.initial)
  have l: "ledger (snd (flush (ex_env 500) ex_client
         (snd (enqueue (ex_env 500) (ex_mutation ''k1'' 1 7) (ex_world []))))) =
       [ex_mutation ''k1'' 1 0]"
    by (simp add: ex_defs flush_defs queue_defs client_defs Let_def)
  have e: "fst (enqueue (ex_env 500) (ex_mutation ''k1'' 1 7) (ex_world [])) = Inr (ex_mutation ''k1'' 1 0)"
    by (simp add: ex_defs queue_defs Let_def)
  show ?thesis
    using r l e
      stored_retries_zero [of "ex_env 500" "ex_mutation ''k1'' 1 7" "ex_world []"]
      stored_retries_zero [of "ex_env 500" "ex_mutation ''k1'' 1 7"
        "snd (flush (ex_env 500) ex_client
         (snd (enqueue (ex_env 500) (ex_mutation ''k1'' 1 7) (ex_world []))))"]
    by (simp add: ex_mutation_def)
qed

subsection \<open>The requests of a pass\<close>











subsection \<open>The order of a pass\<close>






lemma getAll_ok:
  "\<not> db_fails e (db_reqs w) \<Longrightarrow>
   getAll e w = (Inr (db_index_getAll (ledger w)),
                 w\<lparr>db_reqs := Suc (db_reqs w), trace := trace w @ [DbGetAll]\<rparr>)"
  by (simp add: getAll_def db_request_def)

lemma getAll_fails:
  "db_fails e (db_reqs w) \<Longrightarrow> getAll e w = (Inl StorageFailure, w\<lparr>db_reqs := Suc (db_reqs w)\<rparr>)"
  by (simp add: getAll_def db_request_def)








subsection \<open>The single-flight guard\<close>

lemma enqueue_flag: "flushing (snd (enqueue e m w)) = flushing w"
  by (cases "db_fails e (db_reqs w)") (simp_all add: enqueue_ok enqueue_fails Let_def)

lemma remove_flag: "flushing (snd (remove e k w)) = flushing w"
  by (cases "db_fails e (db_reqs w)") (simp_all add: remove_ok remove_fails)

lemma getAll_flag: "flushing (snd (getAll e w)) = flushing w"
  by (cases "db_fails e (db_reqs w)") (simp_all add: getAll_ok getAll_fails)

lemma api_fetch_flag: "flushing (snd (api_fetch e c meth p opts w)) = flushing w"
  using api_fetch_cases [of e c meth p opts w]
    fetch_failed_flag [of e meth p opts "sent e c meth p opts w"]
  by (auto simp: sent_fields)

lemma sleep_flag: "flushing (sleep d w) = flushing w"
  by (simp add: sleep_def)

lemma remove_then_emit_flag: "flushing (snd (remove_then_emit e ev m w)) = flushing w"
  by (cases "db_fails e (db_reqs w)") (simp_all add: remove_then_emit_ok remove_then_emit_fails)

lemma turn_flag: "flushing (snd (turn e c m w)) = flushing w"
proof (cases "retries m < MAX_RETRIES")
  case False
  then show ?thesis by (simp add: turn_def remove_then_emit_flag)
next
  case True
  let ?opts = "\<lparr>opt_body = body m, opt_params = [], opt_idempotencyKey = Some (idempotencyKey m)\<rparr>"
  obtain result w2 where f:
    "api_fetch e c (http_method m) (path m) ?opts (backoff m w) = (result, w2)"
    by (cases "api_fetch e c (http_method m) (path m) ?opts (backoff m w)")
  with api_fetch_flag [of e c "http_method m" "path m" ?opts "backoff m w"]
  have w2: "flushing w2 = flushing w" by (simp add: backoff_fields)
  show ?thesis
    using True f w2 remove_then_emit_flag [of e _ m w2]
      enqueue_flag [of e "m\<lparr>retries := retries m + 1\<rparr>" w2]
    by (auto simp: turn_sends split: sum.splits prod.splits)
qed

lemma drain_flag: "flushing (snd (drain e c ms w)) = flushing w"
proof (induction ms arbitrary: w)
  case Nil
  show ?case by simp
next
  case (Cons m ms)
  obtain f w1 where t: "turn e c m w = (f, w1)" by (cases "turn e c m w")
  with turn_flag [of e c m w] have "flushing w1 = flushing w" by simp
  with t Cons.IH [of w1] show ?case by (cases f) simp_all
qed

text \<open>Tasks that leave the world alone while the flag is set do not disturb an await.\<close>

lemma await_quiet:
  assumes "\<forall>v. flushing v \<longrightarrow> h v = v" "flushing w" "flushing (snd (op w)) = flushing w"
  shows "await h op w = op w"
proof -
  obtain r w1 where o: "op w = (r, w1)" by (cases "op w")
  with assms(2,3) have "flushing w1" by simp
  with assms(1,2) o show ?thesis by (simp add: await_def)
qed

lemma remove_then_emit_among_quiet:
  assumes "\<forall>v. flushing v \<longrightarrow> h v = v" "flushing w"
  shows "remove_then_emit_among h e ev m w = remove_then_emit e ev m w"
  using await_quiet [OF assms, of "remove e (idempotencyKey m)"]
  by (simp add: remove_then_emit_among_def remove_then_emit_def remove_flag)

lemma backoff_among_quiet:
  assumes "\<forall>v. flushing v \<longrightarrow> h v = v" "flushing w"
  shows "backoff_among h m w = backoff m w"
  using await_quiet [OF assms, of "\<lambda>v. ((), sleep (BASE_DELAY_MS * 2 ^ (retries m - 1)) v)"]
  by (simp add: backoff_among_def backoff_def sleep_flag)

lemma turn_among_quiet:
  assumes "\<forall>v. flushing v \<longrightarrow> h v = v" "flushing w"
  shows "turn_among h e c m w = turn e c m w"
proof (cases "retries m < MAX_RETRIES")
  case False
  then show ?thesis
    by (simp add: turn_among_def turn_def remove_then_emit_among_quiet [OF assms])
next
  case True
  let ?opts = "\<lparr>opt_body = body m, opt_params = [], opt_idempotencyKey = Some (idempotencyKey m)\<rparr>"
  have b: "backoff_among h m w = backoff m w"
    using assms by (rule backoff_among_quiet)
  have fb: "flushing (backoff m w)"
    using assms(2) by (simp add: backoff_fields)
  have a: "await h (api_fetch e c (http_method m) (path m) ?opts) (backoff m w) =
           api_fetch e c (http_method m) (path m) ?opts (backoff m w)"
    using assms(1) fb by (rule await_quiet) (simp add: api_fetch_flag)
  obtain result w2 where f:
    "api_fetch e c (http_method m) (path m) ?opts (backoff m w) = (result, w2)"
    by (cases "api_fetch e c (http_method m) (path m) ?opts (backoff m w)")
  with api_fetch_flag [of e c "http_method m" "path m" ?opts "backoff m w"] fb
  have w2: "flushing w2" by simp
  have r: "\<And>ev. remove_then_emit_among h e ev m w2 = remove_then_emit e ev m w2"
    using assms(1) w2 by (rule remove_then_emit_among_quiet)
  have q: "await h (enqueue e (m\<lparr>retries := Suc (retries m)\<rparr>)) w2 =
           enqueue e (m\<lparr>retries := Suc (retries m)\<rparr>) w2"
    using assms(1) w2 by (rule await_quiet) (simp add: enqueue_flag)
  show ?thesis
    using True by (simp add: turn_among_def turn_sends b a f r q)
qed

lemma drain_among_quiet:
  assumes "\<forall>v. flushing v \<longrightarrow> h v = v" "flushing w"
  shows "drain_among h e c ms w = drain e c ms w"
  using assms(2)
proof (induction ms arbitrary: w)
  case Nil
  show ?case by simp
next
  case (Cons m ms)
  have t: "turn_among h e c m w = turn e c m w"
    using assms(1) Cons.prems by (rule turn_among_quiet)
  obtain f w1 where t1: "turn e c m w = (f, w1)" by (cases "turn e c m w")
  with turn_flag [of e c m w] Cons.prems have "flushing w1" by simp
  with t t1 Cons.IH [of w1] show ?case by (cases f) simp_all
qed

lemma flush_among_quiet:
  assumes "\<forall>v. flushing v \<longrightarrow> h v = v"
  shows "flush_among h e c w = flush e c w"
proof (cases "flushing w")
  case True
  then show ?thesis by (simp add: flush_among_def flush_def)
next
  case False
  have g: "await h (getAll e) (w\<lparr>flushing := True\<rparr>) = getAll e (w\<lparr>flushing := True\<rparr>)"
    using assms by (rule await_quiet) (simp_all add: getAll_flag)
  obtain r w1 where g1: "getAll e (w\<lparr>flushing := True\<rparr>) = (r, w1)"
    by (cases "getAll e (w\<lparr>flushing := True\<rparr>)")
  with getAll_flag [of e "w\<lparr>flushing := True\<rparr>"] have "flushing w1" by simp
  then have "\<And>ms. drain_among h e c ms w1 = drain e c ms w1"
    using assms by (intro drain_among_quiet)
  with False g g1 show ?thesis
    by (simp add: flush_among_def flush_def split: sum.splits)
qed

lemma flush_idle: "flushing w \<Longrightarrow> flush e c w = (None, w)"
  by (simp add: flush_def)

lemma flush_clears: "\<not> flushing w \<Longrightarrow> \<not> flushing (snd (flush e c w))"
  by (simp add: flush_world split: prod.splits sum.splits)

text \<open>
  Claim C5. A call of \<open>flush\<close> that finds the flag set returns at once and leaves the
  world as it was: it reads no ledger and sends nothing. A call that finds the flag clear
  returns with the flag clear, however the loop ended (drained, stopped by the network,
  or stopped by a storage failure). And while a flush runs, calls of \<open>flush\<close> that
  arrive at its awaits change nothing: the flush among them is the flush alone, so there
  is one drain at a time.
\<close>

theorem single_flight:
  "(flushing w \<longrightarrow> flush e c w = (None, w))
   \<and> (\<not> flushing w \<longrightarrow> \<not> flushing (snd (flush e c w)))
   \<and> flush_among (\<lambda>v. snd (flush e' c' v)) e c w = flush e c w"
proof (intro conjI impI)
  show "flush_among (\<lambda>v. snd (flush e' c' v)) e c w = flush e c w"
    by (rule flush_among_quiet) (simp add: flush_idle)
qed (simp_all add: flush_idle flush_clears)

theorem single_flight_witness:
  "flushing ((ex_world [ex_mutation ''a'' 1 0, ex_mutation ''b'' 2 0])\<lparr>flushing := True\<rparr>)
   \<and> flush (ex_env 200) ex_client
         ((ex_world [ex_mutation ''a'' 1 0, ex_mutation ''b'' 2 0])\<lparr>flushing := True\<rparr>) =
       (None, (ex_world [ex_mutation ''a'' 1 0, ex_mutation ''b'' 2 0])\<lparr>flushing := True\<rparr>)
   \<and> \<not> flushing (ex_world [ex_mutation ''a'' 1 0, ex_mutation ''b'' 2 0])
   \<and> ledger (snd (flush (ex_env 200) ex_client
         (ex_world [ex_mutation ''a'' 1 0, ex_mutation ''b'' 2 0]))) = []
   \<and> \<not> flushing (snd (flush (ex_env 200) ex_client
         (ex_world [ex_mutation ''a'' 1 0, ex_mutation ''b'' 2 0])))
   \<and> net_requests (trace (snd (flush ex_env_down ex_client
         (ex_world [ex_mutation ''a'' 1 0, ex_mutation ''b'' 2 0])))) =
       [request_of ex_env_down ex_client (ex_mutation ''a'' 1 0)]
   \<and> \<not> flushing (snd (flush ex_env_down ex_client
         (ex_world [ex_mutation ''a'' 1 0, ex_mutation ''b'' 2 0])))
   \<and> flush_among (\<lambda>v. snd (flush (ex_env 200) ex_client v)) (ex_env 200) ex_client
         (ex_world [ex_mutation ''a'' 1 0, ex_mutation ''b'' 2 0]) =
       flush (ex_env 200) ex_client (ex_world [ex_mutation ''a'' 1 0, ex_mutation ''b'' 2 0])"
  using single_flight [of "(ex_world [ex_mutation ''a'' 1 0, ex_mutation ''b'' 2 0])\<lparr>flushing := True\<rparr>"
      "ex_env 200" ex_client "ex_env 200" ex_client]
    single_flight [of "ex_world [ex_mutation ''a'' 1 0, ex_mutation ''b'' 2 0]"
      "ex_env 200" ex_client "ex_env 200" ex_client]
    single_flight [of "ex_world [ex_mutation ''a'' 1 0, ex_mutation ''b'' 2 0]"
      ex_env_down ex_client "ex_env 200" ex_client]
  by (simp add: ex_defs flush_defs queue_defs client_defs Let_def)

end
